theory Spec2Isabelle
  imports Main
begin

section \<open>Python values, exceptions and the conversion state\<close>

text \<open>
  The converters of \<^verbatim>\<open>biryani/baseconv.py\<close> work on arbitrary Python data. The embedding
  uses one datatype for the values that occur: \<^verbatim>\<open>None\<close>, integers, strings, lists, tuples,
  sets and dictionaries. A set is the list of its elements and a dictionary the list of
  its items, both in iteration order; a key is looked up at its first item.
  An error descriptor is a value too: \<^verbatim>\<open>None\<close> (no error), a message, or a dictionary
  from field name or position to the error of that field.
\<close>

datatype pyval =
    PNone
  | PInt int
  | PStr string
  | PList "pyval list"
  | PTuple "pyval list"
  | PSet "pyval list"
  | PDict "(pyval \<times> pyval) list"

text \<open>The exceptions that the modelled code can raise.\<close>

datatype exn = TypeError | AttributeError | KeyError | IndexError | ValueError | UnboundLocalError

text \<open>
  The conversion state. The converters use one attribute of it only: \<^verbatim>\<open>state._\<close>, the
  function that translates an error message.
\<close>

record state =
  translate_msg :: "string \<Rightarrow> string"

text \<open>
  Modelled from the spec: \<^verbatim>\<open>states.default_state\<close> (module \<^verbatim>\<open>biryani/states.py\<close>), the
  process-wide default context. The spec gives it the identity as translation function.
\<close>

definition default_state :: state where
  "default_state = \<lparr>translate_msg = (\<lambda>message. message)\<rparr>"

text \<open>
  A converter is called as \<^verbatim>\<open>converter(value)\<close> or \<^verbatim>\<open>converter(value, state = state)\<close> and
  returns the pair \<^verbatim>\<open>(value, error)\<close>, or raises. The optional argument is \<^verbatim>\<open>None\<close> when the
  caller gives no state; the parameter default \<^verbatim>\<open>state = states.default_state\<close> of the callee
  is then what \<open>arg_state\<close> computes.
\<close>

type_synonym result = "exn + (pyval \<times> pyval)"

type_synonym converter = "pyval \<Rightarrow> state option \<Rightarrow> result"

fun arg_state :: "state option \<Rightarrow> state" where
  "arg_state None = default_state"
| "arg_state (Some s) = s"

section \<open>Built-in operations of Python used by the converters\<close>

text \<open>\<^verbatim>\<open>hash(value)\<close> succeeds: what a dictionary key or a set element must satisfy.\<close>

fun hashable :: "pyval \<Rightarrow> bool" where
  "hashable PNone = True"
| "hashable (PInt i) = True"
| "hashable (PStr s) = True"
| "hashable (PTuple xs) = list_all hashable xs"
| "hashable (PList xs) = False"
| "hashable (PSet xs) = False"
| "hashable (PDict kvs) = False"

text \<open>\<^verbatim>\<open>iter(value)\<close>, read to its end: the items that a \<^verbatim>\<open>for\<close> loop visits.\<close>

fun py_iter :: "pyval \<Rightarrow> exn + pyval list" where
  "py_iter PNone = Inl TypeError"
| "py_iter (PInt i) = Inl TypeError"
| "py_iter (PStr s) = Inr (map (\<lambda>c. PStr [c]) s)"
| "py_iter (PList xs) = Inr xs"
| "py_iter (PTuple xs) = Inr xs"
| "py_iter (PSet xs) = Inr xs"
| "py_iter (PDict kvs) = Inr (map fst kvs)"

text \<open>\<^verbatim>\<open>len(value)\<close>.\<close>

fun py_len :: "pyval \<Rightarrow> exn + nat" where
  "py_len PNone = Inl TypeError"
| "py_len (PInt i) = Inl TypeError"
| "py_len (PStr s) = Inr (length s)"
| "py_len (PList xs) = Inr (length xs)"
| "py_len (PTuple xs) = Inr (length xs)"
| "py_len (PSet xs) = Inr (length xs)"
| "py_len (PDict kvs) = Inr (length kvs)"

text \<open>
  \<^verbatim>\<open>value[0]\<close>: the first item of a list, tuple or string, the item of key \<^verbatim>\<open>0\<close> of a
  dictionary. A set has no subscript.
\<close>

fun py_getitem0 :: "pyval \<Rightarrow> exn + pyval" where
  "py_getitem0 PNone = Inl TypeError"
| "py_getitem0 (PInt i) = Inl TypeError"
| "py_getitem0 (PStr s) = (case s of [] \<Rightarrow> Inl IndexError | c # _ \<Rightarrow> Inr (PStr [c]))"
| "py_getitem0 (PList xs) = (case xs of [] \<Rightarrow> Inl IndexError | x # _ \<Rightarrow> Inr x)"
| "py_getitem0 (PTuple xs) = (case xs of [] \<Rightarrow> Inl IndexError | x # _ \<Rightarrow> Inr x)"
| "py_getitem0 (PSet xs) = Inl TypeError"
| "py_getitem0 (PDict kvs) = (case map_of kvs (PInt 0) of None \<Rightarrow> Inl KeyError | Some v \<Rightarrow> Inr v)"

text \<open>\<^verbatim>\<open>d[key] = value\<close> on a dictionary: the item of the key is replaced, or a new item added.\<close>

fun dict_set :: "('k \<times> 'v) list \<Rightarrow> 'k \<Rightarrow> 'v \<Rightarrow> ('k \<times> 'v) list" where
  "dict_set [] key v = [(key, v)]"
| "dict_set ((k, w) # d) key v = (if k = key then (key, v) # d else (k, w) # dict_set d key v)"

text \<open>\<^verbatim>\<open>d.get(key)\<close> on the items of a dictionary: \<^verbatim>\<open>None\<close> for a key that is not there.\<close>

definition dict_get :: "(pyval \<times> pyval) list \<Rightarrow> pyval \<Rightarrow> pyval" where
  "dict_get d key = (case map_of d key of None \<Rightarrow> PNone | Some v \<Rightarrow> v)"

text \<open>
  The container classes that the converters take as \<^verbatim>\<open>constructor\<close>: \<^verbatim>\<open>list\<close>, \<^verbatim>\<open>tuple\<close>,
  \<^verbatim>\<open>set\<close> and \<^verbatim>\<open>dict\<close>. A class is used in two ways: \<^verbatim>\<open>isinstance(value, cls)\<close> and the call
  \<^verbatim>\<open>cls(value)\<close>.
\<close>

datatype pyclass = ListClass | TupleClass | SetClass | DictClass

fun py_isinstance :: "pyval \<Rightarrow> pyclass \<Rightarrow> bool" where
  "py_isinstance (PList xs) ListClass = True"
| "py_isinstance (PTuple xs) TupleClass = True"
| "py_isinstance (PSet xs) SetClass = True"
| "py_isinstance (PDict kvs) DictClass = True"
| "py_isinstance v c = False"

fun class_repr :: "pyclass \<Rightarrow> string" where
  "class_repr ListClass = ''<type 'list'>''"
| "class_repr TupleClass = ''<type 'tuple'>''"
| "class_repr SetClass = ''<type 'set'>''"
| "class_repr DictClass = ''<type 'dict'>''"

text \<open>
  \<^verbatim>\<open>dict(iterable)\<close>: every item of the iterable is itself read as a pair of key and value.
\<close>

fun dict_of_pairs :: "pyval list \<Rightarrow> (pyval \<times> pyval) list \<Rightarrow> exn + (pyval \<times> pyval) list" where
  "dict_of_pairs [] d = Inr d"
| "dict_of_pairs (p # ps) d =
     (case py_iter p of
        Inl e \<Rightarrow> Inl e
      | Inr [k, v] \<Rightarrow> (if hashable k then dict_of_pairs ps (dict_set d k v) else Inl TypeError)
      | Inr _ \<Rightarrow> Inl ValueError)"

fun py_construct :: "pyclass \<Rightarrow> pyval \<Rightarrow> exn + pyval" where
  "py_construct ListClass v = (case py_iter v of Inl e \<Rightarrow> Inl e | Inr xs \<Rightarrow> Inr (PList xs))"
| "py_construct TupleClass v = (case py_iter v of Inl e \<Rightarrow> Inl e | Inr xs \<Rightarrow> Inr (PTuple xs))"
| "py_construct SetClass v =
     (case py_iter v of
        Inl e \<Rightarrow> Inl e
      | Inr xs \<Rightarrow> (if list_all hashable xs then Inr (PSet (remdups xs)) else Inl TypeError))"
| "py_construct DictClass v =
     (case v of
        PDict kvs \<Rightarrow> Inr (PDict kvs)
      | _ \<Rightarrow> (case py_iter v of
                Inl e \<Rightarrow> Inl e
              | Inr ps \<Rightarrow> (case dict_of_pairs ps [] of Inl e \<Rightarrow> Inl e | Inr d \<Rightarrow> Inr (PDict d))))"

section \<open>Scalar converters\<close>

text \<open>\<^verbatim>\<open>noop\<close>: return value as is.\<close>

definition noop :: converter where
  "noop value sopt = Inr (value, PNone)"

text \<open>\<^verbatim>\<open>require\<close>: an error when value is missing.\<close>

definition require :: converter where
  "require value sopt =
     (let state = arg_state sopt in
      if value = PNone then Inr (PNone, PStr (translate_msg state ''Missing value''))
      else Inr (value, PNone))"

text \<open>\<^verbatim>\<open>default(constant)\<close>: replace a missing value by the constant.\<close>

definition default_conv :: "pyval \<Rightarrow> converter" where
  "default_conv constant value sopt =
     (if value = PNone then Inr (constant, PNone) else Inr (value, PNone))"

text \<open>\<^verbatim>\<open>set_value(constant)\<close>: replace any value but \<^verbatim>\<open>None\<close> by the constant.\<close>

definition set_value :: "pyval \<Rightarrow> converter" where
  "set_value constant value sopt =
     (if value \<noteq> PNone then Inr (constant, PNone) else Inr (PNone, PNone))"

text \<open>\<^verbatim>\<open>fail(msg)\<close>: always an error.\<close>

definition fail_conv :: "string \<Rightarrow> converter" where
  "fail_conv msg value sopt =
     (let state = arg_state sopt in Inr (PNone, PStr (translate_msg state msg)))"

text \<open>
  \<^verbatim>\<open>function(function, handle_none)\<close>: apply a Python function to the value. The function
  may raise and may be \<^verbatim>\<open>None\<close>.
\<close>

definition function_conv :: "(pyval \<Rightarrow> exn + pyval) option \<Rightarrow> bool \<Rightarrow> converter" where
  "function_conv function handle_none value sopt =
     (if value = PNone \<and> \<not> handle_none then Inr (value, PNone)
      else case function of
             None \<Rightarrow> Inr (value, PNone)
           | Some f \<Rightarrow> (case f value of Inl e \<Rightarrow> Inl e | Inr r \<Rightarrow> Inr (r, PNone)))"

text \<open>
  \<^verbatim>\<open>test(function, error, handle_none)\<close>: the function is a predicate, read through the truth
  value of what it returns. The condition of the source is
  \<^verbatim>\<open>value is None and not handle_none or function is None or function(value)\<close>, evaluated
  from left to right.
\<close>

definition test :: "(pyval \<Rightarrow> exn + bool) option \<Rightarrow> string \<Rightarrow> bool \<Rightarrow> converter" where
  "test function error handle_none value sopt =
     (let state = arg_state sopt in
      if value = PNone \<and> \<not> handle_none then Inr (value, PNone)
      else case function of
             None \<Rightarrow> Inr (value, PNone)
           | Some f \<Rightarrow>
               (case f value of
                  Inl e \<Rightarrow> Inl e
                | Inr holds \<Rightarrow>
                    if holds then Inr (value, PNone)
                    else Inr (PNone, PStr (translate_msg state error))))"

text \<open>\<^verbatim>\<open>test_isinstance(cls)\<close>, for one class.\<close>

definition test_isinstance :: "pyclass \<Rightarrow> converter" where
  "test_isinstance cls =
     test (Some (\<lambda>value. Inr (py_isinstance value cls)))
       (''Value is not an instance of '' @ class_repr cls) False"

text \<open>
  \<^verbatim>\<open>translate(conversions)\<close>: a value that is a key of the dictionary is replaced by its
  item. Looking a value up hashes it.
\<close>

definition translate :: "(pyval \<times> pyval) list option \<Rightarrow> converter" where
  "translate conversions =
     function_conv (Some (\<lambda>value.
       case conversions of
         None \<Rightarrow> Inr value
       | Some d \<Rightarrow>
           if value = PNone then Inr value
           else if \<not> hashable value then Inl TypeError
           else (case map_of d value of None \<Rightarrow> Inr value | Some v \<Rightarrow> Inr v))) False"

section \<open>Sequential composition and branching\<close>

text \<open>
  The loop of \<^verbatim>\<open>pipe_converter(*args, **kwargs)\<close>. The arguments of the next call are the
  value and the optional state; the local variable \<^verbatim>\<open>value\<close> is unbound until a converter
  has run. After a step the source sets \<^verbatim>\<open>args = [value]\<close> and \<^verbatim>\<open>kwargs = {}\<close>.
\<close>

fun pipe_loop :: "converter option list \<Rightarrow> pyval \<Rightarrow> state option \<Rightarrow> pyval option \<Rightarrow> result" where
  "pipe_loop [] arg kw bound = (case bound of None \<Rightarrow> Inl UnboundLocalError | Some v \<Rightarrow> Inr (v, PNone))"
| "pipe_loop (None # cs) arg kw bound = pipe_loop cs arg kw bound"
| "pipe_loop (Some c # cs) arg kw bound =
     (case c arg kw of
        Inl e \<Rightarrow> Inl e
      | Inr (v, error) \<Rightarrow> if error \<noteq> PNone then Inr (v, error) else pipe_loop cs v None (Some v))"

definition pipe :: "converter option list \<Rightarrow> converter" where
  "pipe converters value sopt =
     (if converters = [] then noop value sopt else pipe_loop converters value sopt None)"

text \<open>\<^verbatim>\<open>condition(test_converter, ok_converter, error_converter)\<close>.\<close>

definition condition :: "converter \<Rightarrow> converter \<Rightarrow> converter option \<Rightarrow> converter" where
  "condition test_converter ok_converter error_converter value sopt =
     (let state = arg_state sopt in
      case test_converter value (Some state) of
        Inl e \<Rightarrow> Inl e
      | Inr (t, error) \<Rightarrow>
          if error = PNone then ok_converter value (Some state)
          else (case error_converter of
                  None \<Rightarrow> Inr (value, PNone)
                | Some ec \<Rightarrow> ec value (Some state)))"

text \<open>\<^verbatim>\<open>first_match(*converters)\<close>: the loop carries the last result.\<close>

fun first_match_loop :: "converter list \<Rightarrow> pyval \<Rightarrow> state \<Rightarrow> pyval \<times> pyval \<Rightarrow> result" where
  "first_match_loop [] value state prev = Inr prev"
| "first_match_loop (c # cs) value state prev =
     (case c value (Some state) of
        Inl e \<Rightarrow> Inl e
      | Inr (v, error) \<Rightarrow>
          if error = PNone then Inr (v, error) else first_match_loop cs value state (v, error))"

definition first_match :: "converter list \<Rightarrow> converter" where
  "first_match converters value sopt =
     (let state = arg_state sopt in first_match_loop converters value state (value, PNone))"

section \<open>Structural converters\<close>

text \<open>
  The \<^verbatim>\<open>default\<close> argument of \<^verbatim>\<open>structured_mapping\<close> and \<^verbatim>\<open>structured_sequence\<close>: \<^verbatim>\<open>None\<close>,
  the string \<^verbatim>\<open>'ignore'\<close>, or a converter.
\<close>

datatype default_policy = DefaultNone | DefaultIgnore | DefaultConverter converter

text \<open>The converter that the source assigns to an item without a converter of its own.\<close>

fun default_converter :: "default_policy \<Rightarrow> converter" where
  "default_converter (DefaultConverter d) = d"
| "default_converter dflt = fail_conv ''Unexpected item''"

text \<open>The last lines of the three structural converters: the pair that is returned.\<close>

definition finish :: "pyclass \<Rightarrow> bool \<Rightarrow> bool \<Rightarrow> pyval \<Rightarrow> (pyval \<times> pyval) list \<Rightarrow> result" where
  "finish constructor keep_empty nonempty convertered_values errors =
     (case (if keep_empty \<or> nonempty then py_construct constructor convertered_values
            else Inr PNone) of
        Inl e \<Rightarrow> Inl e
      | Inr r \<Rightarrow> Inr (r, if errors = [] then PNone else PDict errors))"

subsection \<open>\<^verbatim>\<open>structured_mapping\<close>\<close>

text \<open>
  At construction the source keeps the configured converters that are not \<^verbatim>\<open>None\<close>:
  \<^verbatim>\<open>dict((name, converter) for name, converter in converters.iteritems() if converter is not None)\<close>.
\<close>

fun configured :: "(pyval \<times> converter option) list \<Rightarrow> (pyval \<times> converter) list \<Rightarrow> (pyval \<times> converter) list" where
  "configured [] table = table"
| "configured ((name, None) # cs) table = configured cs table"
| "configured ((name, Some c) # cs) table = configured cs (dict_set table name c)"

text \<open>
  \<^verbatim>\<open>for name in values: if name not in values_converter: values_converter[name] = ...\<close>.
  The membership test hashes the name.
\<close>

fun add_names :: "pyval list \<Rightarrow> (pyval \<times> converter) list \<Rightarrow> converter \<Rightarrow> exn + (pyval \<times> converter) list" where
  "add_names [] table d = Inr table"
| "add_names (name # names) table d =
     (if \<not> hashable name then Inl TypeError
      else case map_of table name of
             None \<Rightarrow> add_names names (dict_set table name d) d
           | Some c \<Rightarrow> add_names names table d)"

text \<open>The local variable \<^verbatim>\<open>values_converter\<close> of \<^verbatim>\<open>structured_mapping_converter\<close>.\<close>

definition values_converter :: "(pyval \<times> converter option) list \<Rightarrow> default_policy \<Rightarrow> pyval \<Rightarrow> exn + (pyval \<times> converter) list" where
  "values_converter converters dflt values =
     (case dflt of
        DefaultIgnore \<Rightarrow> Inr (configured converters [])
      | _ \<Rightarrow> (case py_iter values of
                Inl e \<Rightarrow> Inl e
              | Inr names \<Rightarrow> add_names names (configured converters []) (default_converter dflt)))"

text \<open>\<^verbatim>\<open>values.get(name)\<close>: only a dictionary has the method.\<close>

fun py_get :: "pyval \<Rightarrow> pyval \<Rightarrow> exn + pyval" where
  "py_get (PDict d) name = Inr (dict_get d name)"
| "py_get v name = Inl AttributeError"

text \<open>The loop over the items of \<^verbatim>\<open>values_converter\<close>, with the two dictionaries it fills.\<close>

fun mapping_loop :: "(pyval \<times> converter) list \<Rightarrow> pyval \<Rightarrow> state \<Rightarrow> (pyval \<times> pyval) list \<Rightarrow> (pyval \<times> pyval) list \<Rightarrow> exn + ((pyval \<times> pyval) list \<times> (pyval \<times> pyval) list)" where
  "mapping_loop [] values state errors convertered_values = Inr (errors, convertered_values)"
| "mapping_loop ((name, converter) # table) values state errors convertered_values =
     (case py_get values name of
        Inl e \<Rightarrow> Inl e
      | Inr item \<Rightarrow>
          (case converter item (Some state) of
             Inl e \<Rightarrow> Inl e
           | Inr (convertered_value, error) \<Rightarrow>
               if error \<noteq> PNone
               then mapping_loop table values state (dict_set errors name error) convertered_values
               else if convertered_value \<noteq> PNone
               then mapping_loop table values state errors (dict_set convertered_values name convertered_value)
               else mapping_loop table values state errors convertered_values))"

definition structured_mapping :: "(pyval \<times> converter option) list \<Rightarrow> pyclass \<Rightarrow> default_policy \<Rightarrow> bool \<Rightarrow> converter" where
  "structured_mapping converters constructor dflt keep_empty values sopt =
     (let state = arg_state sopt in
      if values = PNone then Inr (PNone, PNone)
      else case values_converter converters dflt values of
             Inl e \<Rightarrow> Inl e
           | Inr table \<Rightarrow>
               (case mapping_loop table values state [] [] of
                  Inl e \<Rightarrow> Inl e
                | Inr (errors, convertered_values) \<Rightarrow>
                    finish constructor keep_empty (convertered_values \<noteq> [])
                      (PDict convertered_values) errors))"

subsection \<open>\<^verbatim>\<open>structured_sequence\<close>\<close>

text \<open>At construction: \<^verbatim>\<open>[converter for converter in converters or [] if converter is not None]\<close>.\<close>

fun configured_list :: "converter option list \<Rightarrow> converter list" where
  "configured_list [] = []"
| "configured_list (None # cs) = configured_list cs"
| "configured_list (Some c # cs) = c # configured_list cs"

text \<open>
  The local variable \<^verbatim>\<open>values_converter\<close> of \<^verbatim>\<open>structured_sequence_converter\<close>: the loop
  \<^verbatim>\<open>while len(values) > len(values_converter)\<close> appends the default converter.
\<close>

definition values_converter_list :: "converter option list \<Rightarrow> default_policy \<Rightarrow> pyval \<Rightarrow> exn + converter list" where
  "values_converter_list converters dflt values =
     (case dflt of
        DefaultIgnore \<Rightarrow> Inr (configured_list converters)
      | _ \<Rightarrow> (case py_len values of
                Inl e \<Rightarrow> Inl e
              | Inr n \<Rightarrow>
                  Inr (configured_list converters
                       @ replicate (n - length (configured_list converters)) (default_converter dflt))))"

text \<open>\<^verbatim>\<open>itertools.izip_longest\<close> of the converters and the values, with fill value \<^verbatim>\<open>None\<close>.\<close>

fun izip_longest :: "converter list \<Rightarrow> pyval list \<Rightarrow> (converter option \<times> pyval) list" where
  "izip_longest [] [] = []"
| "izip_longest (c # cs) [] = (Some c, PNone) # izip_longest cs []"
| "izip_longest [] (v # vs) = (None, v) # izip_longest [] vs"
| "izip_longest (c # cs) (v # vs) = (Some c, v) # izip_longest cs vs"

text \<open>The loop over the enumerated pairs. Calling \<^verbatim>\<open>None\<close> raises \<^verbatim>\<open>TypeError\<close>.\<close>

fun sequence_loop :: "(converter option \<times> pyval) list \<Rightarrow> nat \<Rightarrow> state \<Rightarrow> (pyval \<times> pyval) list \<Rightarrow> pyval list \<Rightarrow> exn + ((pyval \<times> pyval) list \<times> pyval list)" where
  "sequence_loop [] i state errors convertered_values = Inr (errors, convertered_values)"
| "sequence_loop ((None, value) # pairs) i state errors convertered_values = Inl TypeError"
| "sequence_loop ((Some converter, value) # pairs) i state errors convertered_values =
     (case converter value (Some state) of
        Inl e \<Rightarrow> Inl e
      | Inr (convertered_value, error) \<Rightarrow>
          sequence_loop pairs (Suc i) state
            (if error \<noteq> PNone then dict_set errors (PInt (int i)) error else errors)
            (convertered_values @ [convertered_value]))"

definition structured_sequence :: "converter option list \<Rightarrow> pyclass \<Rightarrow> default_policy \<Rightarrow> bool \<Rightarrow> converter" where
  "structured_sequence converters constructor dflt keep_empty values sopt =
     (let state = arg_state sopt in
      if values = PNone then Inr (PNone, PNone)
      else case values_converter_list converters dflt values of
             Inl e \<Rightarrow> Inl e
           | Inr cs \<Rightarrow>
               (case py_iter values of
                  Inl e \<Rightarrow> Inl e
                | Inr items \<Rightarrow>
                    (case sequence_loop (izip_longest cs (take (length cs) items)) 0 state [] [] of
                       Inl e \<Rightarrow> Inl e
                     | Inr (errors, convertered_values) \<Rightarrow>
                         finish constructor keep_empty (convertered_values \<noteq> [])
                           (PList convertered_values) errors)))"

subsection \<open>\<^verbatim>\<open>uniform_sequence\<close> and \<^verbatim>\<open>item_or_sequence\<close>\<close>

fun uniform_loop :: "converter \<Rightarrow> bool \<Rightarrow> pyval list \<Rightarrow> nat \<Rightarrow> state \<Rightarrow> (pyval \<times> pyval) list \<Rightarrow> pyval list \<Rightarrow> exn + ((pyval \<times> pyval) list \<times> pyval list)" where
  "uniform_loop converter keep_null_items [] i state errors convertered_values =
     Inr (errors, convertered_values)"
| "uniform_loop converter keep_null_items (value # items) i state errors convertered_values =
     (case converter value (Some state) of
        Inl e \<Rightarrow> Inl e
      | Inr (convertered_value, error) \<Rightarrow>
          uniform_loop converter keep_null_items items (Suc i) state
            (if error \<noteq> PNone then dict_set errors (PInt (int i)) error else errors)
            (if keep_null_items \<or> convertered_value \<noteq> PNone
             then convertered_values @ [convertered_value] else convertered_values))"

definition uniform_sequence :: "converter \<Rightarrow> pyclass \<Rightarrow> bool \<Rightarrow> bool \<Rightarrow> converter" where
  "uniform_sequence converter constructor keep_empty keep_null_items values sopt =
     (let state = arg_state sopt in
      if values = PNone then Inr (PNone, PNone)
      else case py_iter values of
             Inl e \<Rightarrow> Inl e
           | Inr items \<Rightarrow>
               (case uniform_loop converter keep_null_items items 0 state [] [] of
                  Inl e \<Rightarrow> Inl e
                | Inr (errors, convertered_values) \<Rightarrow>
                    finish constructor keep_empty (convertered_values \<noteq> [])
                      (PList convertered_values) errors))"

text \<open>
  The two functions of \<^verbatim>\<open>extract_when_singleton\<close>:
  \<^verbatim>\<open>lambda value: len(value) == 1 and not isinstance(value[0], (list, set, tuple))\<close> and
  \<^verbatim>\<open>lambda value: list(value)[0]\<close>.
\<close>

definition is_singleton :: "pyval \<Rightarrow> exn + bool" where
  "is_singleton value =
     (case py_len value of
        Inl e \<Rightarrow> Inl e
      | Inr n \<Rightarrow>
          if n \<noteq> 1 then Inr False
          else (case py_getitem0 value of
                  Inl e \<Rightarrow> Inl e
                | Inr item \<Rightarrow>
                    Inr (\<not> (py_isinstance item ListClass \<or> py_isinstance item SetClass
                            \<or> py_isinstance item TupleClass))))"

definition first_item :: "pyval \<Rightarrow> exn + pyval" where
  "first_item value =
     (case py_construct ListClass value of
        Inl e \<Rightarrow> Inl e
      | Inr l \<Rightarrow> py_getitem0 l)"

definition extract_when_singleton :: converter where
  "extract_when_singleton =
     condition (test (Some is_singleton) ''Test failed'' False)
       (function_conv (Some first_item) False) None"

definition item_or_sequence :: "converter \<Rightarrow> pyclass \<Rightarrow> bool \<Rightarrow> converter" where
  "item_or_sequence converter constructor keep_null_items =
     condition (test_isinstance constructor)
       (pipe [Some (uniform_sequence converter constructor False keep_null_items),
              Some extract_when_singleton])
       (Some converter)"

text \<open>The item of a key in a value or an error descriptor that is a dictionary.\<close>

fun py_lookup :: "pyval \<Rightarrow> pyval \<Rightarrow> pyval option" where
  "py_lookup (PDict d) key = map_of d key"
| "py_lookup v key = None"

section \<open>The families of converters and the sample inputs of the theorems\<close>

text \<open>
  A state whose translation function is not the identity: it turns the message of
  \<^verbatim>\<open>require\<close> into French and keeps every other message.
\<close>

definition french_state :: state where
  "french_state =
     \<lparr>translate_msg = (\<lambda>message. if message = ''Missing value'' then ''Valeur manquante''
                                 else message)\<rparr>"

text \<open>
  The converters built from the combinators that do not convert a missing value: \<^verbatim>\<open>noop\<close>,
  \<^verbatim>\<open>test\<close> and \<^verbatim>\<open>function\<close> with \<^verbatim>\<open>handle_none = False\<close>, \<^verbatim>\<open>translate\<close>, the four structural
  converters over any converters, and \<^verbatim>\<open>pipe\<close>, \<^verbatim>\<open>condition\<close> and \<^verbatim>\<open>first_match\<close> over converters
  of the family. A pipe is either empty or has an entry that is not \<^verbatim>\<open>None\<close>.
\<close>

inductive built :: "converter \<Rightarrow> bool" where
  built_noop: "built noop"
| built_test: "built (test function error False)"
| built_translate: "built (translate conversions)"
| built_function: "built (function_conv function False)"
| built_pipe_empty: "built (pipe [])"
| built_pipe: "Some c \<in> set converters \<Longrightarrow> (\<forall>c'. Some c' \<in> set converters \<longrightarrow> built c')
     \<Longrightarrow> built (pipe converters)"
| built_condition: "built test_converter \<Longrightarrow> built ok_converter
     \<Longrightarrow> built (condition test_converter ok_converter error_converter)"
| built_first_match: "(\<forall>c \<in> set converters. built c) \<Longrightarrow> built (first_match converters)"
| built_structured_mapping: "built (structured_mapping mapping_converters constructor dflt keep_empty)"
| built_structured_sequence: "built (structured_sequence sequence_converters constructor dflt keep_empty)"
| built_uniform_sequence: "built (uniform_sequence converter constructor keep_empty keep_null_items)"
| built_item_or_sequence: "built (item_or_sequence converter constructor keep_null_items)"

section \<open>Sequential composition\<close>

text \<open>
  C1. The claim is that \<^verbatim>\<open>pipe\<close> gives the caller's state to every step. The source clears
  the keyword arguments after the first step that runs (\<^verbatim>\<open>kwargs = {}\<close>), so every later
  step is called without a state and falls back to the default state. With the French
  state, \<^verbatim>\<open>pipe(noop, require)\<close> reports the missing value in English, although \<^verbatim>\<open>require\<close>
  called with that state reports it in French.
\<close>

theorem pipe_state_dropped:
  "pipe [Some noop, Some require] PNone (Some french_state) = Inr (PNone, PStr ''Missing value'')
   \<and> require PNone (Some french_state) = Inr (PNone, PStr ''Valeur manquante'')"
  by (simp add: pipe_def noop_def require_def french_state_def default_state_def)

text \<open>
  C4. When the first converter of a pipe returns an error that is not \<^verbatim>\<open>None\<close>, the pipe
  returns the pair of that converter, whatever the converters after it are: they are not
  applied, so even one that would raise changes nothing.
\<close>

theorem pipe_short_circuit:
  assumes "a x sopt = Inr (v, error)" and "error \<noteq> PNone"
  shows "pipe (Some a # rest) x sopt = a x sopt"
  using assms by (simp add: pipe_def)

theorem pipe_short_circuit_witness:
  "pipe [Some require, Some (function_conv (Some (\<lambda>v. Inl TypeError)) True)] PNone None
     = Inr (PNone, PStr ''Missing value'')"
  using pipe_short_circuit [of require PNone None PNone "PStr ''Missing value''"
      "[Some (function_conv (Some (\<lambda>v. Inl TypeError)) True)]"]
  by (simp add: require_def default_state_def)

section \<open>The converter \<^verbatim>\<open>test\<close>\<close>

text \<open>
  C8. With \<^verbatim>\<open>handle_none\<close> left at \<^verbatim>\<open>False\<close>, \<^verbatim>\<open>test(predicate, message)\<close> lets a missing value
  through without an error; on any other value for which the predicate returns, the
  value comes back unchanged when the predicate holds, and \<^verbatim>\<open>None\<close> with the translated
  message when it does not.
\<close>

theorem test_result:
  "test (Some f) message False PNone sopt = Inr (PNone, PNone)
   \<and> (v \<noteq> PNone \<longrightarrow> f v = Inr holds \<longrightarrow>
        test (Some f) message False v sopt =
          (if holds then Inr (v, PNone)
           else Inr (PNone, PStr (translate_msg (arg_state sopt) message))))"
  by (simp add: test_def)

theorem test_result_witness:
  "test (Some (\<lambda>v. Inr (py_isinstance v ListClass))) ''Value is not a list'' False (PInt 1) None
     = Inr (PNone, PStr ''Value is not a list'')
   \<and> test (Some (\<lambda>v. Inr (py_isinstance v ListClass))) ''Value is not a list'' False (PList []) None
     = Inr (PList [], PNone)"
  using test_result [of "\<lambda>v. Inr (py_isinstance v ListClass)" "''Value is not a list''" None "PInt 1" False]
    test_result [of "\<lambda>v. Inr (py_isinstance v ListClass)" "''Value is not a list''" None "PList []" True]
  by (simp add: default_state_def)

section \<open>A missing value\<close>

lemma pipe_loop_absent:
  assumes "\<forall>c. Some c \<in> set cs \<longrightarrow> (\<forall>kw. c PNone kw = Inr (PNone, PNone))"
    and "bound = Some PNone \<or> (bound = None \<and> (\<exists>c. Some c \<in> set cs))"
  shows "pipe_loop cs PNone kw bound = Inr (PNone, PNone)"
  using assms
proof (induction cs PNone kw bound rule: pipe_loop.induct)
  case (1 kw bound)
  then show ?case by auto
next
  case (2 cs kw bound)
  then show ?case by auto
next
  case (3 c cs kw bound)
  then show ?case by auto
qed

lemma first_match_loop_absent:
  assumes "cs \<noteq> [] \<Longrightarrow> hd cs PNone (Some state) = Inr (PNone, PNone)"
  shows "first_match_loop cs PNone state (PNone, PNone) = Inr (PNone, PNone)"
  using assms by (cases cs) auto

lemma extract_when_singleton_None:
  "extract_when_singleton PNone sopt = Inr (PNone, PNone)"
  by (simp add: extract_when_singleton_def condition_def test_def function_conv_def)

text \<open>
  C2. The claim is that every converter built with \<^verbatim>\<open>pipe\<close>, \<^verbatim>\<open>condition\<close>, \<^verbatim>\<open>first_match\<close>,
  the structural combinators, \<^verbatim>\<open>test\<close>, \<^verbatim>\<open>translate\<close>, \<^verbatim>\<open>function\<close> or \<^verbatim>\<open>noop\<close> returns
  \<^verbatim>\<open>(None, None)\<close> on a missing value. As stated it fails: a pipe over \<^verbatim>\<open>default(42)\<close> returns
  \<^verbatim>\<open>(42, None)\<close>, and \<^verbatim>\<open>function\<close> with \<^verbatim>\<open>handle_none = True\<close> applies its function to \<^verbatim>\<open>None\<close>.
\<close>

theorem absent_counterexample:
  "pipe [Some (default_conv (PInt 42))] PNone None = Inr (PInt 42, PNone)
   \<and> function_conv (Some (\<lambda>value. Inr (PList [value]))) True PNone None
       = Inr (PList [PNone], PNone)"
  by (simp add: pipe_def default_conv_def function_conv_def)

text \<open>
  C2, amended. Every converter of the family \<open>built\<close> returns \<^verbatim>\<open>(None, None)\<close> on a missing
  value, in every state: the structural converters over any converters, \<^verbatim>\<open>noop\<close>,
  \<^verbatim>\<open>translate\<close>, \<^verbatim>\<open>test\<close> and \<^verbatim>\<open>function\<close> with \<^verbatim>\<open>handle_none = False\<close>, and the pipes,
  conditions and first matches whose component converters are of the family.
\<close>

theorem built_absent:
  assumes "built c"
  shows "c PNone sopt = Inr (PNone, PNone)"
  using assms
proof (induction arbitrary: sopt rule: built.induct)
  case built_noop
  show ?case by (simp add: noop_def)
next
  case (built_test f msg)
  show ?case by (simp add: test_def)
next
  case (built_translate conversions)
  show ?case by (simp add: translate_def function_conv_def)
next
  case (built_function f)
  show ?case by (simp add: function_conv_def)
next
  case built_pipe_empty
  show ?case by (simp add: pipe_def noop_def)
next
  case (built_pipe c converters)
  have "pipe_loop converters PNone sopt None = Inr (PNone, PNone)"
    using built_pipe by (intro pipe_loop_absent) auto
  moreover have "converters \<noteq> []" using built_pipe(1) by auto
  ultimately show ?case by (simp add: pipe_def)
next
  case (built_condition test_converter ok_converter error_converter)
  then show ?case by (simp add: condition_def)
next
  case (built_first_match converters)
  have "first_match_loop converters PNone (arg_state sopt) (PNone, PNone) = Inr (PNone, PNone)"
    using built_first_match by (intro first_match_loop_absent) auto
  then show ?case by (simp add: first_match_def)
next
  case (built_structured_mapping mapping_converters constructor dflt keep_empty)
  show ?case by (simp add: structured_mapping_def)
next
  case (built_structured_sequence sequence_converters constructor dflt keep_empty)
  show ?case by (simp add: structured_sequence_def)
next
  case (built_uniform_sequence converter constructor keep_empty keep_null_items)
  show ?case by (simp add: uniform_sequence_def)
next
  case (built_item_or_sequence converter constructor keep_null_items)
  show ?case
    by (simp add: item_or_sequence_def condition_def test_isinstance_def test_def pipe_def
        uniform_sequence_def extract_when_singleton_None)
qed

theorem built_absent_witness:
  "pipe [Some noop, None, Some (condition (test_isinstance ListClass)
           (first_match [item_or_sequence require ListClass False, noop]) (Some require))]
     PNone (Some french_state) = Inr (PNone, PNone)"
  by (rule built_absent) (auto simp: test_isinstance_def intro!: built.intros)

section \<open>An item or a sequence\<close>

lemma uniform_sequence_singleton:
  assumes "converter x (Some (arg_state sopt)) = Inr (v, error)"
  shows "uniform_sequence converter constructor False keep_null_items (PList [x]) sopt =
    finish constructor False (keep_null_items \<or> v \<noteq> PNone)
      (PList (if keep_null_items \<or> v \<noteq> PNone then [v] else []))
      (if error \<noteq> PNone then [(PInt 0, error)] else [])"
  using assms by (simp add: uniform_sequence_def)

lemma uniform_sequence_set_singleton:
  assumes "converter x (Some (arg_state sopt)) = Inr (v, error)"
  shows "uniform_sequence converter constructor False keep_null_items (PSet [x]) sopt =
    finish constructor False (keep_null_items \<or> v \<noteq> PNone)
      (PList (if keep_null_items \<or> v \<noteq> PNone then [v] else []))
      (if error \<noteq> PNone then [(PInt 0, error)] else [])"
  using assms by (simp add: uniform_sequence_def)

lemma extract_when_singleton_list:
  "\<not> (py_isinstance v ListClass \<or> py_isinstance v SetClass \<or> py_isinstance v TupleClass)
   \<Longrightarrow> extract_when_singleton (PList [v]) sopt = Inr (v, PNone)"
  by (simp add: extract_when_singleton_def condition_def test_def is_singleton_def
      function_conv_def first_item_def)

lemma extract_when_singleton_set:
  "extract_when_singleton (PSet [v]) sopt = Inl TypeError"
  by (simp add: extract_when_singleton_def condition_def test_def is_singleton_def)

text \<open>
  C7. The claim is that \<^verbatim>\<open>item_or_sequence(conv)\<close> on the list \<^verbatim>\<open>[v]\<close> returns the pair of
  \<^verbatim>\<open>conv\<close> on \<^verbatim>\<open>v\<close> whenever the converted value is not a nested container. As stated it
  fails when \<^verbatim>\<open>conv\<close> reports an error: the error comes back as a dictionary of positions,
  and the pipe stops before the singleton is extracted.
\<close>

theorem item_or_sequence_collapse_counterexample:
  "item_or_sequence (fail_conv ''Wrong answer'') ListClass False (PList [PInt 42]) None
     = Inr (PNone, PDict [(PInt 0, PStr ''Wrong answer'')])
   \<and> fail_conv ''Wrong answer'' (PInt 42) None = Inr (PNone, PStr ''Wrong answer'')
   \<and> item_or_sequence (fail_conv ''Wrong answer'') ListClass False (PList [PInt 42]) None
     \<noteq> fail_conv ''Wrong answer'' (PInt 42) None"
  by (simp add: item_or_sequence_def condition_def test_isinstance_def test_def pipe_def
      uniform_sequence_def finish_def fail_conv_def default_state_def)

text \<open>
  C7, amended. When \<^verbatim>\<open>conv\<close> converts \<^verbatim>\<open>v\<close> without an error to a value that is not a list,
  a set or a tuple, \<^verbatim>\<open>item_or_sequence(conv)\<close> on the list \<^verbatim>\<open>[v]\<close> returns the pair that
  \<^verbatim>\<open>conv\<close> returns on \<^verbatim>\<open>v\<close> in the same state.
\<close>

theorem item_or_sequence_collapse:
  assumes "converter v (Some (arg_state sopt)) = Inr (cv, PNone)"
    and "\<not> (py_isinstance cv ListClass \<or> py_isinstance cv SetClass \<or> py_isinstance cv TupleClass)"
  shows "item_or_sequence converter ListClass keep_null_items (PList [v]) sopt
         = converter v (Some (arg_state sopt))"
  using assms
  by (simp add: item_or_sequence_def condition_def test_isinstance_def test_def pipe_def
      uniform_sequence_singleton finish_def extract_when_singleton_list
      extract_when_singleton_None)

theorem item_or_sequence_collapse_witness:
  "item_or_sequence (set_value (PInt 42)) ListClass False (PList [PStr ''x'']) None
     = Inr (PInt 42, PNone)"
  using item_or_sequence_collapse [of "set_value (PInt 42)" "PStr ''x''" None "PInt 42" False]
  by (simp add: set_value_def)

text \<open>
  C10. Built with \<^verbatim>\<open>constructor = set\<close> and applied to a set of one element that the
  converter converts without an error, \<^verbatim>\<open>item_or_sequence\<close> raises \<^verbatim>\<open>TypeError\<close>: the test of
  \<^verbatim>\<open>extract_when_singleton\<close> evaluates \<^verbatim>\<open>value[0]\<close> on the one-element set that
  \<^verbatim>\<open>uniform_sequence\<close> returns.
\<close>

theorem item_or_sequence_set_raises:
  assumes "converter x (Some (arg_state sopt)) = Inr (v, PNone)"
    and "keep_null_items \<or> v \<noteq> PNone" and "hashable v"
  shows "item_or_sequence converter SetClass keep_null_items (PSet [x]) sopt = Inl TypeError"
  using assms
  by (simp add: item_or_sequence_def condition_def test_isinstance_def test_def pipe_def
      uniform_sequence_set_singleton finish_def extract_when_singleton_set)

theorem item_or_sequence_set_raises_witness:
  "item_or_sequence noop SetClass False (PSet [PInt 42]) None = Inl TypeError"
  using item_or_sequence_set_raises [of noop "PInt 42" None "PInt 42" False]
  by (simp add: noop_def)

section \<open>Mappings of converters\<close>

lemma map_of_dict_set: "map_of (dict_set d k v) = (map_of d)(k \<mapsto> v)"
  by (induction d k v rule: dict_set.induct) auto

lemma keys_dict_set: "fst ` set (dict_set d k v) = insert k (fst ` set d)"
  by (induction d k v rule: dict_set.induct) auto

lemma distinct_dict_set: "distinct (map fst d) \<Longrightarrow> distinct (map fst (dict_set d k v))"
  by (induction d k v rule: dict_set.induct) (auto simp: keys_dict_set)

lemma distinct_configured:
  "distinct (map fst table) \<Longrightarrow> distinct (map fst (configured cs table))"
  by (induction cs table rule: configured.induct) (auto simp: distinct_dict_set)

lemma distinct_add_names:
  "add_names names table d = Inr table' \<Longrightarrow> distinct (map fst table)
   \<Longrightarrow> distinct (map fst table')"
  by (induction names table d rule: add_names.induct)
     (auto simp: distinct_dict_set split: if_splits option.splits)

lemma map_of_add_names:
  "add_names names table d = Inr table' \<Longrightarrow>
   map_of table' n = (case map_of table n of
                        Some c \<Rightarrow> Some c
                      | None \<Rightarrow> if n \<in> set names then Some d else None)"
  by (induction names table d rule: add_names.induct)
     (auto simp: map_of_dict_set split: if_splits option.splits)

lemma distinct_values_converter:
  "values_converter converters dflt values = Inr table \<Longrightarrow> distinct (map fst table)"
  by (cases dflt)
     (auto simp: values_converter_def distinct_configured
           dest!: distinct_add_names split: sum.splits)

lemma map_of_values_converter:
  assumes "values_converter converters dflt (PDict items) = Inr table"
  shows "map_of table n =
    (case map_of (configured converters []) n of
       Some c \<Rightarrow> Some c
     | None \<Rightarrow> if dflt \<noteq> DefaultIgnore \<and> n \<in> fst ` set items
               then Some (default_converter dflt) else None)"
  using assms
  by (cases dflt) (auto simp: values_converter_def map_of_add_names split: option.splits)

lemma mapping_loop_lookup:
  assumes "mapping_loop table (PDict items) st errs vals = Inr (E, V)"
    and "distinct (map fst table)"
  shows "(map_of table n = None \<longrightarrow> map_of E n = map_of errs n \<and> map_of V n = map_of vals n)
    \<and> (\<forall>c. map_of table n = Some c \<longrightarrow>
          (\<exists>v e. c (dict_get items n) (Some st) = Inr (v, e)
             \<and> map_of E n = (if e \<noteq> PNone then Some e else map_of errs n)
             \<and> map_of V n = (if e = PNone \<and> v \<noteq> PNone then Some v else map_of vals n)))"
  using assms
proof (induction table arbitrary: errs vals)
  case Nil
  then show ?case by simp
next
  case (Cons entry table)
  obtain name converter where entry: "entry = (name, converter)"
    by (cases entry)
  obtain v e where r: "converter (dict_get items name) (Some st) = Inr (v, e)"
    using Cons.prems(1) entry by (auto split: sum.splits)
  have d: "distinct (map fst table)" and nin: "name \<notin> fst ` set table"
    using Cons.prems(2) entry by auto
  have none: "map_of table name = None"
    using nin by (simp add: map_of_eq_None_iff)
  define errs' where "errs' = (if e \<noteq> PNone then dict_set errs name e else errs)"
  define vals' where "vals' = (if e = PNone \<and> v \<noteq> PNone then dict_set vals name v else vals)"
  have run: "mapping_loop table (PDict items) st errs' vals' = Inr (E, V)"
    using Cons.prems(1) entry r by (auto simp: errs'_def vals'_def split: if_splits)
  note IH = Cons.IH [OF run d]
  show ?case
  proof (cases "n = name")
    case True
    have "map_of errs' name = (if e \<noteq> PNone then Some e else map_of errs name)"
      and "map_of vals' name = (if e = PNone \<and> v \<noteq> PNone then Some v else map_of vals name)"
      by (simp_all add: errs'_def vals'_def map_of_dict_set)
    with IH none r entry True show ?thesis
      by simp
  next
    case False
    have "map_of errs' n = map_of errs n" and "map_of vals' n = map_of vals n"
      using False by (simp_all add: errs'_def vals'_def map_of_dict_set)
    with IH entry False show ?thesis
      by (simp cong: if_cong)
  qed
qed

lemma mapping_loop_returns:
  assumes "\<forall>(n, c) \<in> set table. \<exists>r. c (dict_get items n) (Some st) = Inr r"
  shows "\<exists>E V. mapping_loop table (PDict items) st errs vals = Inr (E, V)"
  using assms
proof (induction table arbitrary: errs vals)
  case Nil
  show ?case by simp
next
  case (Cons entry table)
  obtain name converter where entry: "entry = (name, converter)"
    by (cases entry)
  obtain v e where r: "converter (dict_get items name) (Some st) = Inr (v, e)"
    using Cons.prems entry by auto
  have rest: "\<forall>(n, c) \<in> set table. \<exists>r. c (dict_get items n) (Some st) = Inr r"
    using Cons.prems by simp
  show ?case
    using Cons.IH [OF rest] entry r by simp
qed

lemma structured_mapping_dict:
  assumes "values_converter converters dflt (PDict items) = Inr table"
    and "mapping_loop table (PDict items) (arg_state sopt) [] [] = Inr (E, V)"
  shows "structured_mapping converters DictClass dflt keep_empty (PDict items) sopt =
    Inr (if keep_empty \<or> V \<noteq> [] then PDict V else PNone, if E = [] then PNone else PDict E)"
  using assms by (simp add: structured_mapping_def finish_def)

lemma py_lookup_value: "py_lookup (if keep_empty \<or> V \<noteq> [] then PDict V else PNone) n = map_of V n"
  by auto

lemma py_lookup_errors: "py_lookup (if E = [] then PNone else PDict E) n = map_of E n"
  by auto

lemma structured_mapping_lookup:
  assumes "structured_mapping converters DictClass dflt keep_empty (PDict items) sopt = Inr (value, errors)"
  shows "\<exists>table. values_converter converters dflt (PDict items) = Inr table
    \<and> (map_of table n = None \<longrightarrow> py_lookup errors n = None \<and> py_lookup value n = None)
    \<and> (\<forall>c. map_of table n = Some c \<longrightarrow>
          (\<exists>v e. c (dict_get items n) (Some (arg_state sopt)) = Inr (v, e)
             \<and> py_lookup errors n = (if e \<noteq> PNone then Some e else None)
             \<and> py_lookup value n = (if e = PNone \<and> v \<noteq> PNone then Some v else None)))"
proof -
  obtain table where tbl: "values_converter converters dflt (PDict items) = Inr table"
    using assms by (auto simp: structured_mapping_def split: sum.splits)
  obtain E V where run: "mapping_loop table (PDict items) (arg_state sopt) [] [] = Inr (E, V)"
    using assms tbl by (auto simp: structured_mapping_def split: sum.splits)
  have res: "value = (if keep_empty \<or> V \<noteq> [] then PDict V else PNone)"
      "errors = (if E = [] then PNone else PDict E)"
    using assms structured_mapping_dict [OF tbl run, of keep_empty] by simp_all
  have lk: "py_lookup value n = map_of V n" "py_lookup errors n = map_of E n"
    unfolding res by (rule py_lookup_value, rule py_lookup_errors)
  from mapping_loop_lookup [OF run distinct_values_converter [OF tbl], of n] tbl
  show ?thesis unfolding lk by (simp cong: if_cong)
qed

lemma configured_without:
  "\<forall>c. (name, Some c) \<notin> set cs \<Longrightarrow>
   configured cs table = configured (filter (\<lambda>(n, c). n \<noteq> name) cs) table"
  by (induction cs table rule: configured.induct) auto

lemma map_of_configured_without:
  "\<forall>c. (name, Some c) \<notin> set cs \<Longrightarrow> map_of (configured cs table) name = map_of table name"
  by (induction cs table rule: configured.induct) (auto simp: map_of_dict_set)

text \<open>
  C3. \<^verbatim>\<open>structured_mapping\<close> converts every key of its converter table on its own. When the
  converters of the table return on the items of the input mapping, the conversion
  returns a pair, and for every key of the table the outcome of its converter is in the
  pair, whatever the other converters return: an error that is not \<^verbatim>\<open>None\<close> is the item of
  the key in the errors, a converted value that is not \<^verbatim>\<open>None\<close> is the item of the key in the
  value. So the value can be a populated dictionary while the errors are not empty, as for
  \<^verbatim>\<open>require\<close> on the keys \<^verbatim>\<open>a\<close> and \<^verbatim>\<open>b\<close> and the input \<^verbatim>\<open>{a: None, b: 1}\<close>.
\<close>

theorem structured_mapping_independent:
  assumes "values_converter converters dflt (PDict items) = Inr table"
    and "\<forall>(name, c) \<in> set table. \<exists>r. c (dict_get items name) (Some (arg_state sopt)) = Inr r"
  shows "\<exists>value errors.
      structured_mapping converters DictClass dflt keep_empty (PDict items) sopt = Inr (value, errors)
    \<and> (\<forall>(name, c) \<in> set table. \<forall>v e.
          c (dict_get items name) (Some (arg_state sopt)) = Inr (v, e) \<longrightarrow>
            py_lookup errors name = (if e \<noteq> PNone then Some e else None)
          \<and> py_lookup value name = (if e = PNone \<and> v \<noteq> PNone then Some v else None))"
proof -
  obtain E V where run: "mapping_loop table (PDict items) (arg_state sopt) [] [] = Inr (E, V)"
    using mapping_loop_returns [OF assms(2)] by blast
  let ?val = "if keep_empty \<or> V \<noteq> [] then PDict V else PNone"
  let ?errs = "if E = [] then PNone else PDict E"
  have res: "structured_mapping converters DictClass dflt keep_empty (PDict items) sopt
               = Inr (?val, ?errs)"
    by (rule structured_mapping_dict [OF assms(1) run])
  have d: "distinct (map fst table)"
    by (rule distinct_values_converter [OF assms(1)])
  have "py_lookup ?errs name = (if e \<noteq> PNone then Some e else None)
      \<and> py_lookup ?val name = (if e = PNone \<and> v \<noteq> PNone then Some v else None)"
    if "(name, c) \<in> set table" and "c (dict_get items name) (Some (arg_state sopt)) = Inr (v, e)"
    for name c v e
  proof -
    have "map_of table name = Some c"
      using that(1) d by simp
    with mapping_loop_lookup [OF run d, of name] that(2)
    show ?thesis unfolding py_lookup_value py_lookup_errors by simp
  qed
  with res show ?thesis by blast
qed

theorem structured_mapping_independent_witness:
  "structured_mapping [(PStr ''a'', Some require), (PStr ''b'', Some require)] DictClass
     DefaultNone False (PDict [(PStr ''a'', PNone), (PStr ''b'', PInt 1)]) None
   = Inr (PDict [(PStr ''b'', PInt 1)], PDict [(PStr ''a'', PStr ''Missing value'')])"
proof -
  have tbl: "values_converter [(PStr ''a'', Some require), (PStr ''b'', Some require)] DefaultNone
      (PDict [(PStr ''a'', PNone), (PStr ''b'', PInt 1)])
      = Inr [(PStr ''a'', require), (PStr ''b'', require)]"
    by (simp add: values_converter_def)
  have ret: "\<forall>(name, c) \<in> set [(PStr ''a'', require), (PStr ''b'', require)].
      \<exists>r. c (dict_get [(PStr ''a'', PNone), (PStr ''b'', PInt 1)] name) (Some (arg_state None)) = Inr r"
    by (simp add: require_def dict_get_def)
  from structured_mapping_independent [OF tbl ret, of False]
  show ?thesis
    by (auto simp: require_def dict_get_def default_state_def structured_mapping_def tbl finish_def)
qed

text \<open>
  C5. A key of the input mapping without a configured converter follows the default
  policy. In the pair that the conversion returns, with \<^verbatim>\<open>default = None\<close> the key has the
  error \<^verbatim>\<open>Unexpected item\<close> (translated by the state) and no item in the value; with
  \<^verbatim>\<open>default = 'ignore'\<close> it has neither an error nor an item in the value; with a default
  converter, the outcome of that converter on the item of the key is what is recorded.
\<close>

theorem structured_mapping_unknown_key:
  assumes "map_of (configured converters []) name = None"
    and "name \<in> fst ` set items"
    and "structured_mapping converters DictClass dflt keep_empty (PDict items) sopt = Inr (value, errors)"
  shows "(dflt = DefaultNone \<longrightarrow>
            py_lookup errors name = Some (PStr (translate_msg (arg_state sopt) ''Unexpected item''))
          \<and> py_lookup value name = None)
       \<and> (dflt = DefaultIgnore \<longrightarrow> py_lookup errors name = None \<and> py_lookup value name = None)
       \<and> (\<forall>d. dflt = DefaultConverter d \<longrightarrow>
            (\<exists>v e. d (dict_get items name) (Some (arg_state sopt)) = Inr (v, e)
               \<and> py_lookup errors name = (if e \<noteq> PNone then Some e else None)
               \<and> py_lookup value name = (if e = PNone \<and> v \<noteq> PNone then Some v else None)))"
proof -
  obtain table where tbl: "values_converter converters dflt (PDict items) = Inr table"
    and none: "map_of table name = None \<longrightarrow> py_lookup errors name = None \<and> py_lookup value name = None"
    and some: "\<forall>c. map_of table name = Some c \<longrightarrow>
          (\<exists>v e. c (dict_get items name) (Some (arg_state sopt)) = Inr (v, e)
             \<and> py_lookup errors name = (if e \<noteq> PNone then Some e else None)
             \<and> py_lookup value name = (if e = PNone \<and> v \<noteq> PNone then Some v else None))"
    using structured_mapping_lookup [OF assms(3), of name] by (elim exE conjE) (rule that)
  have entry: "map_of table name =
      (if dflt \<noteq> DefaultIgnore then Some (default_converter dflt) else None)"
    using map_of_values_converter [OF tbl, of name] assms(1,2) by simp
  show ?thesis
  proof (cases dflt)
    case DefaultNone
    with entry some show ?thesis by (auto simp: fail_conv_def)
  next
    case DefaultIgnore
    with entry none show ?thesis by simp
  next
    case (DefaultConverter d)
    with entry some show ?thesis by simp
  qed
qed

theorem structured_mapping_unknown_key_witness:
  "structured_mapping [(PStr ''a'', Some noop)] DictClass DefaultNone False
     (PDict [(PStr ''a'', PInt 1), (PStr ''z'', PInt 2)]) None
   = Inr (PDict [(PStr ''a'', PInt 1)], PDict [(PStr ''z'', PStr ''Unexpected item'')])
   \<and> structured_mapping [(PStr ''a'', Some noop)] DictClass DefaultIgnore False
     (PDict [(PStr ''a'', PInt 1), (PStr ''z'', PInt 2)]) None
   = Inr (PDict [(PStr ''a'', PInt 1)], PNone)"
proof -
  have r1: "structured_mapping [(PStr ''a'', Some noop)] DictClass DefaultNone False
     (PDict [(PStr ''a'', PInt 1), (PStr ''z'', PInt 2)]) None
   = Inr (PDict [(PStr ''a'', PInt 1)], PDict [(PStr ''z'', PStr ''Unexpected item'')])"
    by (simp add: structured_mapping_def values_converter_def finish_def noop_def fail_conv_def
        dict_get_def default_state_def)
  have r2: "structured_mapping [(PStr ''a'', Some noop)] DictClass DefaultIgnore False
     (PDict [(PStr ''a'', PInt 1), (PStr ''z'', PInt 2)]) None
   = Inr (PDict [(PStr ''a'', PInt 1)], PNone)"
    by (simp add: structured_mapping_def values_converter_def finish_def noop_def
        dict_get_def)
  have k: "map_of (configured [(PStr ''a'', Some noop)] []) (PStr ''z'') = None"
    "PStr ''z'' \<in> fst ` set [(PStr ''a'', PInt 1), (PStr ''z'', PInt 2)]"
    by simp_all
  from structured_mapping_unknown_key [OF k r1] structured_mapping_unknown_key [OF k r2] r1 r2
  show ?thesis by simp
qed

text \<open>
  C9. A field configured with \<^verbatim>\<open>None\<close> as its converter has no entry in the table built at
  construction: the converter behaves on every input as the one built without the field,
  so nothing is invoked for the field, and when the key is in the input mapping and
  \<^verbatim>\<open>default\<close> is \<^verbatim>\<open>None\<close> the key has the error \<^verbatim>\<open>Unexpected item\<close>.
\<close>

theorem structured_mapping_none_converter:
  assumes "(name, None) \<in> set converters" and "distinct (map fst converters)"
  shows "map_of (configured converters []) name = None
    \<and> structured_mapping converters constructor dflt keep_empty values sopt
        = structured_mapping (filter (\<lambda>(n, c). n \<noteq> name) converters) constructor dflt keep_empty values sopt
    \<and> (name \<in> fst ` set items \<longrightarrow>
        structured_mapping converters DictClass DefaultNone keep_empty (PDict items) sopt = Inr (value, errors) \<longrightarrow>
          py_lookup errors name = Some (PStr (translate_msg (arg_state sopt) ''Unexpected item''))
        \<and> py_lookup value name = None)"
proof -
  have no: "\<forall>c. (name, Some c) \<notin> set converters"
    using assms by (metis eq_key_imp_eq_value option.distinct(1))
  have none: "map_of (configured converters []) name = None"
    using map_of_configured_without [OF no, of "[]"] by simp
  have same: "configured converters [] = configured (filter (\<lambda>(n, c). n \<noteq> name) converters) []"
    by (rule configured_without [OF no])
  have eq: "structured_mapping converters constructor dflt keep_empty values sopt
        = structured_mapping (filter (\<lambda>(n, c). n \<noteq> name) converters) constructor dflt keep_empty values sopt"
    by (simp only: structured_mapping_def values_converter_def same [symmetric])
  have "py_lookup errors name = Some (PStr (translate_msg (arg_state sopt) ''Unexpected item''))
        \<and> py_lookup value name = None"
    if key: "name \<in> fst ` set items"
      and res: "structured_mapping converters DictClass DefaultNone keep_empty (PDict items) sopt = Inr (value, errors)"
  proof -
    obtain table where tbl: "values_converter converters DefaultNone (PDict items) = Inr table"
      and some: "\<forall>c. map_of table name = Some c \<longrightarrow>
          (\<exists>v e. c (dict_get items name) (Some (arg_state sopt)) = Inr (v, e)
             \<and> py_lookup errors name = (if e \<noteq> PNone then Some e else None)
             \<and> py_lookup value name = (if e = PNone \<and> v \<noteq> PNone then Some v else None))"
      using structured_mapping_lookup [OF res, of name] by (elim exE conjE) (rule that)
    have "map_of table name = Some (fail_conv ''Unexpected item'')"
      using map_of_values_converter [OF tbl, of name] none key by simp
    with some show ?thesis by (auto simp: fail_conv_def)
  qed
  with none eq show ?thesis by blast
qed

theorem structured_mapping_none_converter_witness:
  "structured_mapping [(PStr ''a'', None), (PStr ''b'', Some require)] DictClass DefaultNone False
     (PDict [(PStr ''a'', PInt 1), (PStr ''b'', PInt 2)]) None
   = Inr (PDict [(PStr ''b'', PInt 2)], PDict [(PStr ''a'', PStr ''Unexpected item'')])
   \<and> structured_mapping [(PStr ''a'', None), (PStr ''b'', Some require)] DictClass DefaultNone False
     (PDict [(PStr ''b'', PInt 2)]) None
   = structured_mapping [(PStr ''b'', Some require)] DictClass DefaultNone False
     (PDict [(PStr ''b'', PInt 2)]) None"
proof -
  have h: "(PStr ''a'', None) \<in> set [(PStr ''a'', None), (PStr ''b'', Some require)]"
    "distinct (map fst [(PStr ''a'', None::converter option), (PStr ''b'', Some require)])"
    by simp_all
  have r: "structured_mapping [(PStr ''a'', None), (PStr ''b'', Some require)] DictClass DefaultNone False
     (PDict [(PStr ''a'', PInt 1), (PStr ''b'', PInt 2)]) None
   = Inr (PDict [(PStr ''b'', PInt 2)], PDict [(PStr ''a'', PStr ''Unexpected item'')])"
    by (simp add: structured_mapping_def values_converter_def finish_def require_def fail_conv_def
        dict_get_def default_state_def)
  from structured_mapping_none_converter [OF h, of DictClass DefaultNone False "PDict [(PStr ''b'', PInt 2)]" None]
    r
  show ?thesis by simp
qed

section \<open>Sequences of converters\<close>

lemma izip_longest_padded:
  "length xs \<le> length cs \<Longrightarrow>
   izip_longest cs xs = zip (map Some cs) (xs @ replicate (length cs - length xs) PNone)"
  by (induction cs xs rule: izip_longest.induct) auto

lemma padded_nth:
  "i < length cs \<Longrightarrow> length xs \<le> length cs \<Longrightarrow>
   (xs @ replicate (length cs - length xs) PNone) ! i = (if i < length xs then xs ! i else PNone)"
  by (simp add: nth_append)

lemma sequence_loop_result:
  assumes "sequence_loop (zip (map Some cs) ys) i st errs vals = Inr (E, V)"
    and "length ys = length cs"
  shows "\<exists>vs. V = vals @ vs \<and> length vs = length cs
    \<and> (\<forall>j < length cs. \<exists>e. (cs ! j) (ys ! j) (Some st) = Inr (vs ! j, e)
          \<and> map_of E (PInt (int (i + j)))
              = (if e \<noteq> PNone then Some e else map_of errs (PInt (int (i + j)))))
    \<and> (\<forall>k. (\<forall>j < length cs. k \<noteq> PInt (int (i + j))) \<longrightarrow> map_of E k = map_of errs k)"
  using assms
proof (induction cs arbitrary: ys i errs vals)
  case Nil
  then show ?case by simp
next
  case (Cons c cs)
  obtain y ys' where ys: "ys = y # ys'" and len: "length ys' = length cs"
    using Cons.prems(2) by (cases ys) auto
  obtain v e where r: "c y (Some st) = Inr (v, e)"
    using Cons.prems(1) ys by (auto split: sum.splits)
  define errs' where "errs' = (if e \<noteq> PNone then dict_set errs (PInt (int i)) e else errs)"
  have run: "sequence_loop (zip (map Some cs) ys') (Suc i) st errs' (vals @ [v]) = Inr (E, V)"
    using Cons.prems(1) ys r by (simp add: errs'_def)
  from Cons.IH [OF run len] obtain vs where
    V: "V = (vals @ [v]) @ vs" and lvs: "length vs = length cs"
    and each: "\<forall>j < length cs. \<exists>e. (cs ! j) (ys' ! j) (Some st) = Inr (vs ! j, e)
          \<and> map_of E (PInt (int (Suc i + j)))
              = (if e \<noteq> PNone then Some e else map_of errs' (PInt (int (Suc i + j))))"
    and other: "\<forall>k. (\<forall>j < length cs. k \<noteq> PInt (int (Suc i + j))) \<longrightarrow> map_of E k = map_of errs' k"
    by (elim exE conjE)
  have here: "map_of errs' (PInt (int i)) = (if e \<noteq> PNone then Some e else map_of errs (PInt (int i)))"
    by (simp add: errs'_def map_of_dict_set)
  have there: "map_of errs' k = map_of errs k" if "k \<noteq> PInt (int i)" for k
    using that by (simp add: errs'_def map_of_dict_set)
  have first: "map_of E (PInt (int i)) = map_of errs' (PInt (int i))"
    using other by simp
  have "\<exists>e. ((c # cs) ! j) (ys ! j) (Some st) = Inr ((v # vs) ! j, e)
          \<and> map_of E (PInt (int (i + j)))
              = (if e \<noteq> PNone then Some e else map_of errs (PInt (int (i + j))))"
    if "j < length (c # cs)" for j
  proof (cases j)
    case 0
    with r first here ys show ?thesis by simp
  next
    case (Suc j')
    then have "j' < length cs" using that by simp
    with each obtain e' where "(cs ! j') (ys' ! j') (Some st) = Inr (vs ! j', e')"
      and "map_of E (PInt (int (Suc i + j')))
              = (if e' \<noteq> PNone then Some e' else map_of errs' (PInt (int (Suc i + j'))))"
      by blast
    moreover have "map_of errs' (PInt (int (Suc i + j'))) = map_of errs (PInt (int (Suc i + j')))"
      by (rule there) simp
    ultimately show ?thesis using Suc ys by simp
  qed
  moreover have "map_of E k = map_of errs k"
    if "\<forall>j < length (c # cs). k \<noteq> PInt (int (i + j))" for k
  proof -
    have "k \<noteq> PInt (int i)" using that by force
    moreover have "\<forall>j < length cs. k \<noteq> PInt (int (Suc i + j))"
      using that by force
    ultimately show ?thesis using other there by simp
  qed
  ultimately show ?case
    using V lvs by (intro exI [of _ "v # vs"]) simp
qed

lemma sequence_loop_returns:
  assumes "\<forall>j < length cs. \<exists>r. (cs ! j) (ys ! j) (Some st) = Inr r"
    and "length ys = length cs"
  shows "\<exists>E V. sequence_loop (zip (map Some cs) ys) i st errs vals = Inr (E, V)"
  using assms
proof (induction cs arbitrary: ys i errs vals)
  case Nil
  then show ?case by simp
next
  case (Cons c cs)
  obtain y ys' where ys: "ys = y # ys'" and len: "length ys' = length cs"
    using Cons.prems(2) by (cases ys) auto
  obtain v e where r: "c y (Some st) = Inr (v, e)"
    using Cons.prems(1) ys by fastforce
  have rest: "\<forall>j < length cs. \<exists>r. (cs ! j) (ys' ! j) (Some st) = Inr r"
    using Cons.prems(1) ys by auto
  show ?case
    using Cons.IH [OF rest len] ys r by simp
qed

text \<open>
  C6. When the input sequence is shorter than the list of configured converters,
  \<^verbatim>\<open>structured_sequence\<close> calls the converter of every position, the trailing ones on
  \<^verbatim>\<open>None\<close>. When these calls return, the conversion returns a list with one entry for each
  position, in order, the entries that are \<^verbatim>\<open>None\<close> included, and the error of a position is
  its item in the errors: \<^verbatim>\<open>require\<close> twice on the list \<^verbatim>\<open>[1]\<close> gives \<^verbatim>\<open>[1, None]\<close> and the
  error \<^verbatim>\<open>Missing value\<close> at position 1.
\<close>

theorem structured_sequence_padding:
  assumes "length items < length (configured_list converters)"
    and "\<forall>i < length (configured_list converters). \<exists>r.
           (configured_list converters ! i) (if i < length items then items ! i else PNone)
             (Some (arg_state sopt)) = Inr r"
  shows "\<exists>vs errors.
      structured_sequence converters ListClass dflt keep_empty (PList items) sopt
        = Inr (PList vs, errors)
    \<and> length vs = length (configured_list converters)
    \<and> (\<forall>i < length (configured_list converters). \<exists>e.
          (configured_list converters ! i) (if i < length items then items ! i else PNone)
             (Some (arg_state sopt)) = Inr (vs ! i, e)
        \<and> py_lookup errors (PInt (int i)) = (if e \<noteq> PNone then Some e else None))"
proof -
  let ?cs = "configured_list converters"
  let ?ys = "items @ replicate (length ?cs - length items) PNone"
  have tbl: "values_converter_list converters dflt (PList items) = Inr ?cs"
    using assms(1) by (cases dflt) (simp_all add: values_converter_list_def)
  have pairs: "izip_longest ?cs (take (length ?cs) items) = zip (map Some ?cs) ?ys"
    using assms(1) izip_longest_padded [of items ?cs] by simp
  have len: "length ?ys = length ?cs"
    using assms(1) by simp
  have nth: "?ys ! i = (if i < length items then items ! i else PNone)" if "i < length ?cs" for i
    using that assms(1) padded_nth [of i ?cs items] by simp
  have ret: "\<forall>j < length ?cs. \<exists>r. (?cs ! j) (?ys ! j) (Some (arg_state sopt)) = Inr r"
    using assms(2) nth by simp
  obtain E V where run: "sequence_loop (zip (map Some ?cs) ?ys) 0 (arg_state sopt) [] [] = Inr (E, V)"
    using sequence_loop_returns [OF ret len] by blast
  from sequence_loop_result [OF run len]
  have "\<exists>vs. V = vs \<and> length vs = length ?cs
    \<and> (\<forall>j < length ?cs. \<exists>e. (?cs ! j) (?ys ! j) (Some (arg_state sopt)) = Inr (vs ! j, e)
          \<and> map_of E (PInt (int j)) = (if e \<noteq> PNone then Some e else None))"
    by (simp cong: if_cong)
  then obtain vs where
    V: "V = vs" and lvs: "length vs = length ?cs"
    and each: "\<forall>j < length ?cs. \<exists>e. (?cs ! j) (?ys ! j) (Some (arg_state sopt)) = Inr (vs ! j, e)
          \<and> map_of E (PInt (int j)) = (if e \<noteq> PNone then Some e else None)"
    by (elim exE conjE) (rule that)
  have ne: "vs \<noteq> []"
    using lvs assms(1) by auto
  have res: "structured_sequence converters ListClass dflt keep_empty (PList items) sopt
        = Inr (PList vs, if E = [] then PNone else PDict E)"
    using tbl pairs run V ne by (simp add: structured_sequence_def finish_def)
  have "\<exists>e. (?cs ! i) (if i < length items then items ! i else PNone) (Some (arg_state sopt))
             = Inr (vs ! i, e)
        \<and> py_lookup (if E = [] then PNone else PDict E) (PInt (int i))
             = (if e \<noteq> PNone then Some e else None)"
    if "i < length ?cs" for i
  proof -
    from each that obtain e where
      "(?cs ! i) (?ys ! i) (Some (arg_state sopt)) = Inr (vs ! i, e)"
      and "map_of E (PInt (int i)) = (if e \<noteq> PNone then Some e else None)"
      by blast
    then show ?thesis
      unfolding py_lookup_errors nth [OF that] by (intro exI [of _ e] conjI)
  qed
  with res lvs show ?thesis by blast
qed

theorem structured_sequence_padding_witness:
  "structured_sequence [Some require, Some require] ListClass DefaultNone False
     (PList [PInt 1]) None
   = Inr (PList [PInt 1, PNone], PDict [(PInt 1, PStr ''Missing value'')])"
proof -
  have h1: "length [PInt 1] < length (configured_list [Some require, Some require])"
    by simp
  have h2: "\<forall>i < length (configured_list [Some require, Some require]). \<exists>r.
           (configured_list [Some require, Some require] ! i)
             (if i < length [PInt 1] then [PInt 1] ! i else PNone)
             (Some (arg_state None)) = Inr r"
    by (simp add: require_def)
  from structured_sequence_padding [OF h1 h2, of DefaultNone False]
  show ?thesis
    by (simp add: structured_sequence_def values_converter_list_def finish_def require_def
        default_state_def)
qed

end
